theory Spec2Isabelle
  imports Main "HOL-Library.Word"
begin

section \<open>Values, request models and the in-memory stores\<close>

text \<open>
  The handlers of \<open>examples/fastapi-api/main.py\<close> keep three module-level lists of
  dictionaries. A dictionary maps field names to Python values; the handlers only store
  and return floats, so a float is carried as its 64-bit pattern. Python integers are
  unbounded.
\<close>

type_synonym pyfloat = "64 word"

datatype pyval =
    PNone
  | PBool bool
  | PInt int
  | PFloat pyfloat
  | PStr string
  | PIntList "int list"

type_synonym pydict = "string \<rightharpoonup> pyval"

datatype py_error =
    HTTPException int string
  | KeyError string
  | TypeError

text \<open>
  The pydantic models. The field names carry a prefix because the three models share the
  names \<open>id\<close> and \<open>name\<close>: \<open>u_id\<close> is \<open>User.id\<close>, \<open>p_price\<close> is
  \<open>Product.price\<close>, \<open>o_items\<close> is \<open>Order.items\<close>.
\<close>

record User =
  u_id :: "int option"
  u_name :: string
  u_email :: string

record Product =
  p_id :: "int option"
  p_name :: string
  p_price :: pyfloat

record Order =
  o_id :: "int option"
  o_user_id :: int
  o_items :: "int list"
  o_total :: pyfloat

definition optional_int :: "int option \<Rightarrow> pyval" where
  "optional_int v = (case v of None \<Rightarrow> PNone | Some n \<Rightarrow> PInt n)"

text \<open>\<open>user.dict()\<close>, \<open>product.dict()\<close> and \<open>order.dict()\<close>.\<close>

definition User_dict :: "User \<Rightarrow> pydict" where
  "User_dict user =
     [''id'' \<mapsto> optional_int (u_id user),
      ''name'' \<mapsto> PStr (u_name user),
      ''email'' \<mapsto> PStr (u_email user)]"

definition Product_dict :: "Product \<Rightarrow> pydict" where
  "Product_dict product =
     [''id'' \<mapsto> optional_int (p_id product),
      ''name'' \<mapsto> PStr (p_name product),
      ''price'' \<mapsto> PFloat (p_price product)]"

definition Order_dict :: "Order \<Rightarrow> pydict" where
  "Order_dict order =
     [''id'' \<mapsto> optional_int (o_id order),
      ''user_id'' \<mapsto> PInt (o_user_id order),
      ''items'' \<mapsto> PIntList (o_items order),
      ''total'' \<mapsto> PFloat (o_total order)]"

text \<open>The module globals \<open>users_db\<close>, \<open>products_db\<close> and \<open>orders_db\<close>.\<close>

record state =
  users_db :: "pydict list"
  products_db :: "pydict list"
  orders_db :: "pydict list"

definition init_state :: state where
  "init_state = \<lparr>users_db = [], products_db = [], orders_db = []\<rparr>"

text \<open>
  A handler reads and mutates the globals and either returns a value or raises: it maps a
  state to a result (\<open>Inl\<close> the exception raised) and the state it leaves behind.
\<close>

type_synonym 'a handler = "state \<Rightarrow> (py_error + 'a) \<times> state"

section \<open>The handlers\<close>

subsection \<open>list\<close>

definition list_users :: "pydict list handler" where
  "list_users s = (Inr (users_db s), s)"

definition list_products :: "pydict list handler" where
  "list_products s = (Inr (products_db s), s)"

definition list_orders :: "pydict list handler" where
  "list_orders s = (Inr (orders_db s), s)"

text \<open>
  \<open>list_users\<close> is declared with no parameter. Python checks the arity of a call before
  the body runs: a call that passes positional arguments raises \<open>TypeError\<close>.
\<close>

definition call_list_users :: "'a list \<Rightarrow> pydict list handler" where
  "call_list_users args s = (if args = [] then list_users s else (Inl TypeError, s))"

subsection \<open>get\<close>

text \<open>
  The loop \<open>for r in db: if r["id"] == i: return r\<close> followed by the \<open>raise\<close>. The three
  get handlers run it over their own list with their own message. \<open>r["id"]\<close> raises
  \<open>KeyError\<close> on a dictionary without that key. The stored value is compared with an
  \<open>int\<close> path parameter; on the integers that create and update store, Python's \<open>==\<close>
  is equality of integers.
\<close>

fun get_loop :: "string \<Rightarrow> pydict list \<Rightarrow> int \<Rightarrow> py_error + pydict" where
  "get_loop detail [] i = Inl (HTTPException 404 detail)"
| "get_loop detail (r # rest) i =
     (case r ''id'' of
        None \<Rightarrow> Inl (KeyError ''id'')
      | Some v \<Rightarrow> if v = PInt i then Inr r else get_loop detail rest i)"

definition get_user :: "int \<Rightarrow> pydict handler" where
  "get_user user_id s = (get_loop ''User not found'' (users_db s) user_id, s)"

definition get_product :: "int \<Rightarrow> pydict handler" where
  "get_product product_id s = (get_loop ''Product not found'' (products_db s) product_id, s)"

definition get_order :: "int \<Rightarrow> pydict handler" where
  "get_order order_id s = (get_loop ''Order not found'' (orders_db s) order_id, s)"

subsection \<open>create\<close>

definition create_user :: "User \<Rightarrow> pydict handler" where
  "create_user user s =
     (let user_dict = (User_dict user)(''id'' \<mapsto> PInt (int (length (users_db s)) + 1))
      in (Inr user_dict, s\<lparr>users_db := users_db s @ [user_dict]\<rparr>))"

definition create_product :: "Product \<Rightarrow> pydict handler" where
  "create_product product s =
     (let product_dict =
            (Product_dict product)(''id'' \<mapsto> PInt (int (length (products_db s)) + 1))
      in (Inr product_dict, s\<lparr>products_db := products_db s @ [product_dict]\<rparr>))"

definition create_order :: "Order \<Rightarrow> pydict handler" where
  "create_order order s =
     (let order_dict = (Order_dict order)(''id'' \<mapsto> PInt (int (length (orders_db s)) + 1))
      in (Inr order_dict, s\<lparr>orders_db := orders_db s @ [order_dict]\<rparr>))"

subsection \<open>update and delete\<close>

text \<open>
  \<open>for i, existing in enumerate(users_db)\<close>: the loop carries the index \<open>i\<close>, the
  records still to visit and the list itself. \<open>enumerate\<close> keeps \<open>i\<close> below the length
  of the list, so \<open>users_db[i]\<close> never raises.
\<close>

fun update_user_loop ::
  "nat \<Rightarrow> pydict list \<Rightarrow> int \<Rightarrow> User \<Rightarrow> pydict list \<Rightarrow> (py_error + pydict) \<times> pydict list"
where
  "update_user_loop i [] user_id user db = (Inl (HTTPException 404 ''User not found''), db)"
| "update_user_loop i (existing # rest) user_id user db =
     (case existing ''id'' of
        None \<Rightarrow> (Inl (KeyError ''id''), db)
      | Some v \<Rightarrow>
          if v = PInt user_id
          then (let db' = db[i := (User_dict user)(''id'' \<mapsto> PInt user_id)]
                in (Inr (db' ! i), db'))
          else update_user_loop (Suc i) rest user_id user db)"

definition update_user :: "int \<Rightarrow> User \<Rightarrow> pydict handler" where
  "update_user user_id user s =
     (case update_user_loop 0 (users_db s) user_id user (users_db s) of
        (res, db') \<Rightarrow> (res, s\<lparr>users_db := db'\<rparr>))"

fun delete_user_loop ::
  "nat \<Rightarrow> pydict list \<Rightarrow> int \<Rightarrow> pydict list \<Rightarrow> (py_error + pydict) \<times> pydict list"
where
  "delete_user_loop i [] user_id db = (Inl (HTTPException 404 ''User not found''), db)"
| "delete_user_loop i (user # rest) user_id db =
     (case user ''id'' of
        None \<Rightarrow> (Inl (KeyError ''id''), db)
      | Some v \<Rightarrow>
          if v = PInt user_id
          then (Inr [''deleted'' \<mapsto> PBool True], take i db @ drop (Suc i) db)
          else delete_user_loop (Suc i) rest user_id db)"

definition delete_user :: "int \<Rightarrow> pydict handler" where
  "delete_user user_id s =
     (case delete_user_loop 0 (users_db s) user_id (users_db s) of
        (res, db') \<Rightarrow> (res, s\<lparr>users_db := db'\<rparr>))"

section \<open>Notions used to state the properties\<close>

text \<open>The integer stored under \<open>id\<close>, when there is one.\<close>

definition record_id :: "pydict \<Rightarrow> int option" where
  "record_id r = (case r ''id'' of Some (PInt n) \<Rightarrow> Some n | _ \<Rightarrow> None)"

text \<open>
  Every stored record carries an integer \<open>id\<close>. Create and update store nothing else, so
  every state the handlers reach from the empty stores satisfies it.
\<close>

definition wf_db :: "pydict list \<Rightarrow> bool" where
  "wf_db db = list_all (\<lambda>r. record_id r \<noteq> None) db"

definition has_id :: "pydict list \<Rightarrow> int \<Rightarrow> bool" where
  "has_id db i = list_ex (\<lambda>r. record_id r = Some i) db"

text \<open>The position of the first record with the given id.\<close>

fun first_index :: "pydict list \<Rightarrow> int \<Rightarrow> nat option" where
  "first_index [] i = None"
| "first_index (r # rest) i =
     (if record_id r = Some i then Some 0 else map_option Suc (first_index rest i))"

definition wf_state :: "state \<Rightarrow> bool" where
  "wf_state s = (wf_db (users_db s) \<and> wf_db (products_db s) \<and> wf_db (orders_db s))"

text \<open>
  A run of the service: the requests it handles, one after the other. A request that
  raises is answered with an error and the service goes on from the state the handler
  left.
\<close>

datatype request =
    ListUsers
  | GetUser int
  | CreateUser User
  | UpdateUser int User
  | DeleteUser int
  | ListProducts
  | GetProduct int
  | CreateProduct Product
  | ListOrders
  | CreateOrder Order
  | GetOrder int

fun handle :: "request \<Rightarrow> state \<Rightarrow> state" where
  "handle ListUsers s = snd (list_users s)"
| "handle (GetUser user_id) s = snd (get_user user_id s)"
| "handle (CreateUser user) s = snd (create_user user s)"
| "handle (UpdateUser user_id user) s = snd (update_user user_id user s)"
| "handle (DeleteUser user_id) s = snd (delete_user user_id s)"
| "handle ListProducts s = snd (list_products s)"
| "handle (GetProduct product_id) s = snd (get_product product_id s)"
| "handle (CreateProduct product) s = snd (create_product product s)"
| "handle ListOrders s = snd (list_orders s)"
| "handle (CreateOrder order) s = snd (create_order order s)"
| "handle (GetOrder order_id) s = snd (get_order order_id s)"

definition run :: "request list \<Rightarrow> state \<Rightarrow> state" where
  "run requests s = fold handle requests s"

text \<open>
  An unbroken sequence of create calls on one store: the results in call order, and the
  state after the last call.
\<close>

fun creates :: "('m \<Rightarrow> pydict handler) \<Rightarrow> 'm list \<Rightarrow> state \<Rightarrow> (py_error + pydict) list \<times> state" where
  "creates create [] s = ([], s)"
| "creates create (m # ms) s =
     (case create m s of
        (res, s') \<Rightarrow> (case creates create ms s' of (rs, s'') \<Rightarrow> (res # rs, s'')))"

text \<open>The id a call assigned: the id of the record it returned.\<close>

definition assigned_id :: "py_error + pydict \<Rightarrow> int option" where
  "assigned_id res = (case res of Inl e \<Rightarrow> None | Inr r \<Rightarrow> record_id r)"

text \<open>Three users, as a client would post them.\<close>

definition alice :: User where
  "alice = \<lparr>u_id = None, u_name = ''Alice'', u_email = ''a@x.com''\<rparr>"

definition bob :: User where
  "bob = \<lparr>u_id = None, u_name = ''Bob'', u_email = ''b@x.com''\<rparr>"

definition carol :: User where
  "carol = \<lparr>u_id = Some 7, u_name = ''Carol'', u_email = ''c@x.com''\<rparr>"

text \<open>The store after Alice and Bob were created.\<close>

definition two_users :: state where
  "two_users =
     \<lparr>users_db = [(User_dict alice)(''id'' \<mapsto> PInt 1), (User_dict bob)(''id'' \<mapsto> PInt 2)],
      products_db = [],
      orders_db = []\<rparr>"

text \<open>
  The ids of a store are \<open>1, 2, ...\<close> in list order; a request that is a delete.
\<close>

definition numbered :: "pydict list \<Rightarrow> bool" where
  "numbered db = (map record_id db = map (\<lambda>k. Some (int k + 1)) [0..<length db])"

definition is_delete :: "request \<Rightarrow> bool" where
  "is_delete req = (case req of DeleteUser i \<Rightarrow> True | _ \<Rightarrow> False)"

section \<open>Properties\<close>

lemma record_id_Some_iff: "record_id r = Some n \<longleftrightarrow> r ''id'' = Some (PInt n)"
  by (auto simp: record_id_def split: option.splits pyval.splits)

lemma wf_db_Cons: "wf_db (r # rest) \<longleftrightarrow> record_id r \<noteq> None \<and> wf_db rest"
  by (simp add: wf_db_def)

lemma wf_db_Nil: "wf_db []"
  by (simp add: wf_db_def)

lemma wf_db_append: "wf_db (xs @ ys) \<longleftrightarrow> wf_db xs \<and> wf_db ys"
  by (simp add: wf_db_def)

lemma record_id_not_None: "record_id r \<noteq> None \<Longrightarrow> \<exists>n. r ''id'' = Some (PInt n)"
  by (auto simp: record_id_def split: option.splits pyval.splits)

lemma first_index_None_iff: "first_index db i = None \<longleftrightarrow> \<not> has_id db i"
  by (induction db) (auto simp: has_id_def)

lemma first_index_SomeD:
  "first_index db i = Some k \<Longrightarrow>
     k < length db \<and> record_id (db ! k) = Some i \<and> (\<forall>j<k. record_id (db ! j) \<noteq> Some i)"
proof (induction db arbitrary: k)
  case Nil
  then show ?case by simp
next
  case (Cons r rest)
  show ?case
  proof (cases "record_id r = Some i")
    case True
    with Cons.prems show ?thesis by simp
  next
    case False
    with Cons.prems obtain k' where k': "first_index rest i = Some k'" "k = Suc k'"
      by auto
    from Cons.IH [OF k'(1)] False k'(2) show ?thesis
      by (auto simp: less_Suc_eq_0_disj)
  qed
qed

lemma get_loop_first_index:
  "wf_db db \<Longrightarrow>
   get_loop detail db i =
     (case first_index db i of
        None \<Rightarrow> Inl (HTTPException 404 detail)
      | Some k \<Rightarrow> Inr (db ! k))"
proof (induction db)
  case Nil
  then show ?case by simp
next
  case (Cons r rest)
  then obtain n where n: "r ''id'' = Some (PInt n)"
    using record_id_not_None [of r] by (auto simp: wf_db_Cons)
  from Cons show ?case
    by (auto simp: n wf_db_Cons record_id_Some_iff split: option.splits)
qed

lemma update_user_loop_first_index:
  "wf_db rest \<Longrightarrow>
   update_user_loop i rest user_id user db =
     (case first_index rest user_id of
        None \<Rightarrow> (Inl (HTTPException 404 ''User not found''), db)
      | Some k \<Rightarrow>
          (let db' = db[i + k := (User_dict user)(''id'' \<mapsto> PInt user_id)]
           in (Inr (db' ! (i + k)), db')))"
proof (induction rest arbitrary: i)
  case Nil
  then show ?case by simp
next
  case (Cons r rest)
  then obtain n where n: "r ''id'' = Some (PInt n)"
    using record_id_not_None [of r] by (auto simp: wf_db_Cons)
  from Cons.prems have "wf_db rest" by (simp add: wf_db_Cons)
  from Cons.IH [OF this, of "Suc i"] show ?case
    by (auto simp: n record_id_Some_iff Let_def split: option.splits)
qed

lemma delete_user_loop_first_index:
  "wf_db rest \<Longrightarrow>
   delete_user_loop i rest user_id db =
     (case first_index rest user_id of
        None \<Rightarrow> (Inl (HTTPException 404 ''User not found''), db)
      | Some k \<Rightarrow> (Inr [''deleted'' \<mapsto> PBool True], take (i + k) db @ drop (Suc (i + k)) db))"
proof (induction rest arbitrary: i)
  case Nil
  then show ?case by simp
next
  case (Cons r rest)
  then obtain n where n: "r ''id'' = Some (PInt n)"
    using record_id_not_None [of r] by (auto simp: wf_db_Cons)
  from Cons.prems have "wf_db rest" by (simp add: wf_db_Cons)
  from Cons.IH [OF this, of "Suc i"] show ?case
    by (auto simp: n record_id_Some_iff split: option.splits)
qed

text \<open>
  C1: create assigns the id (current record count + 1), whatever id the caller supplied,
  keeps the other fields of the supplied mapping, appends the record to the end of its
  own list, leaves the other lists alone, and returns the stored record without raising.
  This holds for the three create handlers, on every state.
\<close>

theorem create_assigns_count_plus_one:
  "(let n = int (length (users_db s)) + 1;
        r = (User_dict user)(''id'' \<mapsto> PInt n)
    in create_user user s = (Inr r, s\<lparr>users_db := users_db s @ [r]\<rparr>)
       \<and> record_id r = Some n
       \<and> last (users_db (snd (create_user user s))) = r
       \<and> length (users_db (snd (create_user user s))) = length (users_db s) + 1)
   \<and> (let n = int (length (products_db s)) + 1;
        r = (Product_dict product)(''id'' \<mapsto> PInt n)
    in create_product product s = (Inr r, s\<lparr>products_db := products_db s @ [r]\<rparr>)
       \<and> record_id r = Some n
       \<and> last (products_db (snd (create_product product s))) = r)
   \<and> (let n = int (length (orders_db s)) + 1;
        r = (Order_dict order)(''id'' \<mapsto> PInt n)
    in create_order order s = (Inr r, s\<lparr>orders_db := orders_db s @ [r]\<rparr>)
       \<and> record_id r = Some n
       \<and> last (orders_db (snd (create_order order s))) = r)"
  by (simp add: create_user_def create_product_def create_order_def Let_def record_id_Some_iff)

theorem create_assigns_count_plus_one_witness:
  "create_user carol two_users
     = (Inr ((User_dict carol)(''id'' \<mapsto> PInt 3)),
        two_users\<lparr>users_db := users_db two_users @ [(User_dict carol)(''id'' \<mapsto> PInt 3)]\<rparr>)
   \<and> record_id ((User_dict carol)(''id'' \<mapsto> PInt 3)) = Some 3
   \<and> u_id carol = Some 7"
  using create_assigns_count_plus_one [of two_users carol]
  by (simp add: two_users_def carol_def Let_def)

lemma has_id_first_index: "has_id db i \<Longrightarrow> \<exists>k. first_index db i = Some k"
  using first_index_None_iff [of db i] by (cases "first_index db i") auto

lemma get_loop_not_found_iff:
  "wf_db db \<Longrightarrow> (get_loop detail db i = Inl (HTTPException 404 detail)) = (\<not> has_id db i)"
  using first_index_None_iff [of db i]
  by (auto simp: get_loop_first_index split: option.splits)

lemma get_loop_found_iff:
  "wf_db db \<Longrightarrow> (\<exists>r. get_loop detail db i = Inr r) = has_id db i"
  using first_index_None_iff [of db i]
  by (auto simp: get_loop_first_index split: option.splits)

lemma update_user_not_found_iff:
  "wf_db (users_db s) \<Longrightarrow>
     (fst (update_user i user s) = Inl (HTTPException 404 ''User not found''))
       = (\<not> has_id (users_db s) i)"
  using first_index_None_iff [of "users_db s" i]
  by (auto simp: update_user_def update_user_loop_first_index Let_def split: option.splits)

lemma update_user_found_iff:
  "wf_db (users_db s) \<Longrightarrow> (\<exists>r. fst (update_user i user s) = Inr r) = has_id (users_db s) i"
  using first_index_None_iff [of "users_db s" i]
  by (auto simp: update_user_def update_user_loop_first_index Let_def split: option.splits)

lemma delete_user_not_found_iff:
  "wf_db (users_db s) \<Longrightarrow>
     (fst (delete_user i s) = Inl (HTTPException 404 ''User not found''))
       = (\<not> has_id (users_db s) i)"
  using first_index_None_iff [of "users_db s" i]
  by (auto simp: delete_user_def delete_user_loop_first_index split: option.splits)

lemma delete_user_found_iff:
  "wf_db (users_db s) \<Longrightarrow> (\<exists>r. fst (delete_user i s) = Inr r) = has_id (users_db s) i"
  using first_index_None_iff [of "users_db s" i]
  by (auto simp: delete_user_def delete_user_loop_first_index split: option.splits)

text \<open>
  C3: on a store whose records all carry an integer id (every store the handlers reach),
  get, update and delete raise the 404 \<open>HTTPException\<close> exactly when no record has the
  id, and return a value exactly when some record has it: with no matching record they
  neither succeed nor do nothing.
\<close>

theorem not_found_iff_no_record:
  assumes "wf_state s"
  shows "((fst (get_user i s) = Inl (HTTPException 404 ''User not found''))
            = (\<not> has_id (users_db s) i))
       \<and> ((\<exists>r. fst (get_user i s) = Inr r) = has_id (users_db s) i)
       \<and> ((fst (update_user i user s) = Inl (HTTPException 404 ''User not found''))
            = (\<not> has_id (users_db s) i))
       \<and> ((\<exists>r. fst (update_user i user s) = Inr r) = has_id (users_db s) i)
       \<and> ((fst (delete_user i s) = Inl (HTTPException 404 ''User not found''))
            = (\<not> has_id (users_db s) i))
       \<and> ((\<exists>r. fst (delete_user i s) = Inr r) = has_id (users_db s) i)
       \<and> ((fst (get_product i s) = Inl (HTTPException 404 ''Product not found''))
            = (\<not> has_id (products_db s) i))
       \<and> ((\<exists>r. fst (get_product i s) = Inr r) = has_id (products_db s) i)
       \<and> ((fst (get_order i s) = Inl (HTTPException 404 ''Order not found''))
            = (\<not> has_id (orders_db s) i))
       \<and> ((\<exists>r. fst (get_order i s) = Inr r) = has_id (orders_db s) i)"
proof -
  from assms have wf: "wf_db (users_db s)" "wf_db (products_db s)" "wf_db (orders_db s)"
    by (simp_all add: wf_state_def)
  show ?thesis
    unfolding get_user_def get_product_def get_order_def fst_conv
    using get_loop_not_found_iff [OF wf(1), of "''User not found''" i]
      get_loop_found_iff [OF wf(1), of "''User not found''" i]
      get_loop_not_found_iff [OF wf(2), of "''Product not found''" i]
      get_loop_found_iff [OF wf(2), of "''Product not found''" i]
      get_loop_not_found_iff [OF wf(3), of "''Order not found''" i]
      get_loop_found_iff [OF wf(3), of "''Order not found''" i]
      update_user_not_found_iff [OF wf(1), of i user]
      update_user_found_iff [OF wf(1), of i user]
      delete_user_not_found_iff [OF wf(1), of i]
      delete_user_found_iff [OF wf(1), of i]
    by blast
qed

theorem not_found_iff_no_record_witness:
  "wf_state two_users
   \<and> \<not> has_id (users_db two_users) 5
   \<and> fst (get_user 5 two_users) = Inl (HTTPException 404 ''User not found'')
   \<and> fst (update_user 5 carol two_users) = Inl (HTTPException 404 ''User not found'')
   \<and> fst (delete_user 5 two_users) = Inl (HTTPException 404 ''User not found'')
   \<and> fst (get_product 5 two_users) = Inl (HTTPException 404 ''Product not found'')
   \<and> fst (get_order 5 two_users) = Inl (HTTPException 404 ''Order not found'')
   \<and> has_id (users_db two_users) 2
   \<and> (\<exists>r. fst (get_user 2 two_users) = Inr r)
   \<and> (\<exists>r. fst (update_user 2 carol two_users) = Inr r)
   \<and> (\<exists>r. fst (delete_user 2 two_users) = Inr r)"
proof -
  have wf: "wf_state two_users"
    by (simp add: two_users_def wf_state_def wf_db_def record_id_def)
  have no5: "\<not> has_id (users_db two_users) 5" "\<not> has_id (products_db two_users) 5"
    "\<not> has_id (orders_db two_users) 5"
    by (simp_all add: two_users_def has_id_def record_id_def)
  have yes2: "has_id (users_db two_users) 2"
    by (simp add: two_users_def has_id_def record_id_def)
  show ?thesis
    using not_found_iff_no_record [OF wf, of 5 carol] not_found_iff_no_record [OF wf, of 2 carol]
      wf no5 yes2
    by simp
qed

lemma first_index_list_update:
  "first_index db i = Some k \<Longrightarrow> record_id new = Some i \<Longrightarrow> first_index (db[k := new]) i = Some k"
proof (induction db arbitrary: k)
  case Nil
  then show ?case by simp
next
  case (Cons r rest)
  then show ?case
    by (cases k) (auto split: if_splits)
qed

lemma wf_db_list_update: "wf_db db \<Longrightarrow> record_id new \<noteq> None \<Longrightarrow> wf_db (db[k := new])"
  unfolding wf_db_def list_all_iff using set_update_subset_insert [of db k new] by auto

lemma wf_db_delete: "wf_db db \<Longrightarrow> wf_db (take k db @ drop (Suc k) db)"
  unfolding wf_db_def list_all_iff using set_take_subset [of k db] set_drop_subset [of "Suc k" db] by auto

text \<open>
  C5: when a record has the id, update replaces the first such record, at its position
  \<open>k\<close>, by the supplied fields with \<open>id\<close> set to the id of the call (an \<open>id\<close> among
  the fields is overwritten), leaves every other position alone and returns the new
  record; a get of the same id on the resulting store returns that record, whose id is
  the id of the call and whose other fields are the supplied ones.
\<close>

theorem update_replaces_in_place:
  assumes wf: "wf_db (users_db s)" and has: "has_id (users_db s) i"
  shows "\<exists>k < length (users_db s).
           record_id (users_db s ! k) = Some i
         \<and> (\<forall>j<k. record_id (users_db s ! j) \<noteq> Some i)
         \<and> (let new = (User_dict user)(''id'' \<mapsto> PInt i);
                s' = s\<lparr>users_db := (users_db s)[k := new]\<rparr>
            in update_user i user s = (Inr new, s')
             \<and> get_user i s' = (Inr new, s')
             \<and> record_id new = Some i
             \<and> (\<forall>field. field \<noteq> ''id'' \<longrightarrow> new field = User_dict user field))"
proof -
  define new where "new = (User_dict user)(''id'' \<mapsto> PInt i)"
  from has obtain k where k: "first_index (users_db s) i = Some k"
    using has_id_first_index by blast
  from first_index_SomeD [OF k]
  have kk: "k < length (users_db s)" "record_id (users_db s ! k) = Some i"
    "\<forall>j<k. record_id (users_db s ! j) \<noteq> Some i"
    by simp_all
  have idn: "record_id new = Some i"
    by (simp add: new_def record_id_Some_iff)
  have upd: "update_user i user s = (Inr new, s\<lparr>users_db := (users_db s)[k := new]\<rparr>)"
    using kk(1) by (simp add: update_user_def update_user_loop_first_index [OF wf] k Let_def new_def)
  have wf': "wf_db ((users_db s)[k := new])"
    using wf idn by (simp add: wf_db_list_update)
  have "get_loop ''User not found'' ((users_db s)[k := new]) i = Inr new"
    using kk(1) by (simp add: get_loop_first_index [OF wf'] first_index_list_update [OF k idn])
  then have get: "get_user i (s\<lparr>users_db := (users_db s)[k := new]\<rparr>)
      = (Inr new, s\<lparr>users_db := (users_db s)[k := new]\<rparr>)"
    by (simp add: get_user_def)
  have "\<forall>field. field \<noteq> ''id'' \<longrightarrow> new field = User_dict user field"
    by (simp add: new_def)
  with kk upd get idn show ?thesis
    unfolding Let_def new_def [symmetric] by blast
qed

theorem update_replaces_in_place_witness:
  "wf_db (users_db two_users) \<and> has_id (users_db two_users) 2
   \<and> (\<exists>k<length (users_db two_users).
           record_id (users_db two_users ! k) = Some 2
         \<and> (\<forall>j<k. record_id (users_db two_users ! j) \<noteq> Some 2)
         \<and> (let new = (User_dict carol)(''id'' \<mapsto> PInt 2);
                s' = two_users\<lparr>users_db := (users_db two_users)[k := new]\<rparr>
            in update_user 2 carol two_users = (Inr new, s')
             \<and> get_user 2 s' = (Inr new, s')
             \<and> record_id new = Some 2
             \<and> (\<forall>field. field \<noteq> ''id'' \<longrightarrow> new field = User_dict carol field)))"
proof -
  have wf: "wf_db (users_db two_users)"
    by (simp add: two_users_def wf_db_def record_id_def)
  have has: "has_id (users_db two_users) 2"
    by (simp add: two_users_def has_id_def record_id_def)
  from update_replaces_in_place [OF wf has, of carol] wf has show ?thesis
    by blast
qed

lemma get_loop_http_error:
  "get_loop detail db i = Inl (HTTPException c d) \<Longrightarrow> c = 404 \<and> d = detail"
  by (induction db) (auto split: option.splits if_splits)

lemma update_user_loop_http_error:
  "fst (update_user_loop i rest user_id user db) = Inl (HTTPException c d) \<Longrightarrow>
     c = 404 \<and> d = ''User not found''"
  by (induction rest arbitrary: i) (auto simp: Let_def split: option.splits if_splits)

lemma delete_user_loop_http_error:
  "fst (delete_user_loop i rest user_id db) = Inl (HTTPException c d) \<Longrightarrow>
     c = 404 \<and> d = ''User not found''"
  by (induction rest arbitrary: i) (auto split: option.splits if_splits)

lemma update_user_loop_failure:
  "fst (update_user_loop i rest user_id user db) = Inl e \<Longrightarrow>
     snd (update_user_loop i rest user_id user db) = db"
  by (induction rest arbitrary: i) (auto simp: Let_def split: option.splits if_splits)

lemma delete_user_loop_failure:
  "fst (delete_user_loop i rest user_id db) = Inl e \<Longrightarrow>
     snd (delete_user_loop i rest user_id db) = db"
  by (induction rest arbitrary: i) (auto split: option.splits if_splits)

text \<open>
  C9: a get, update or delete that raises leaves the three stores exactly as they were.
\<close>

theorem failed_operation_keeps_state:
  "(fst (get_user i s) = Inl e1 \<longrightarrow> snd (get_user i s) = s)
   \<and> (fst (update_user i user s) = Inl e2 \<longrightarrow> snd (update_user i user s) = s)
   \<and> (fst (delete_user i s) = Inl e3 \<longrightarrow> snd (delete_user i s) = s)
   \<and> (fst (get_product i s) = Inl e4 \<longrightarrow> snd (get_product i s) = s)
   \<and> (fst (get_order i s) = Inl e5 \<longrightarrow> snd (get_order i s) = s)"
proof -
  have "fst (update_user i user s) = Inl e2 \<Longrightarrow> snd (update_user i user s) = s"
    using update_user_loop_failure [of 0 "users_db s" i user "users_db s" e2]
    by (simp add: update_user_def split: prod.splits)
  moreover have "fst (delete_user i s) = Inl e3 \<Longrightarrow> snd (delete_user i s) = s"
    using delete_user_loop_failure [of 0 "users_db s" i "users_db s" e3]
    by (simp add: delete_user_def split: prod.splits)
  ultimately show ?thesis
    by (simp add: get_user_def get_product_def get_order_def)
qed

theorem failed_operation_keeps_state_witness:
  "fst (get_user 5 two_users) = Inl (HTTPException 404 ''User not found'')
   \<and> snd (get_user 5 two_users) = two_users
   \<and> fst (update_user 5 carol two_users) = Inl (HTTPException 404 ''User not found'')
   \<and> snd (update_user 5 carol two_users) = two_users
   \<and> fst (delete_user 5 two_users) = Inl (HTTPException 404 ''User not found'')
   \<and> snd (delete_user 5 two_users) = two_users
   \<and> fst (get_product 5 two_users) = Inl (HTTPException 404 ''Product not found'')
   \<and> snd (get_product 5 two_users) = two_users
   \<and> fst (get_order 5 two_users) = Inl (HTTPException 404 ''Order not found'')
   \<and> snd (get_order 5 two_users) = two_users"
proof -
  have f: "fst (get_user 5 two_users) = Inl (HTTPException 404 ''User not found'')"
    "fst (update_user 5 carol two_users) = Inl (HTTPException 404 ''User not found'')"
    "fst (delete_user 5 two_users) = Inl (HTTPException 404 ''User not found'')"
    "fst (get_product 5 two_users) = Inl (HTTPException 404 ''Product not found'')"
    "fst (get_order 5 two_users) = Inl (HTTPException 404 ''Order not found'')"
    by (simp_all add: get_user_def update_user_def delete_user_def get_product_def
          get_order_def two_users_def)
  show ?thesis
    using f failed_operation_keeps_state [of 5 two_users "HTTPException 404 ''User not found''"
        carol "HTTPException 404 ''User not found''" "HTTPException 404 ''User not found''"
        "HTTPException 404 ''Product not found''" "HTTPException 404 ''Order not found''"]
    by blast
qed

text \<open>
  C10, as amended: every \<open>HTTPException\<close> raised by get, update or delete has status 404
  and the fixed message of its store, \<open>User not found\<close>, \<open>Product not found\<close> or
  \<open>Order not found\<close>: the message names the entity kind and does not depend on the id.
\<close>

theorem not_found_message:
  "(fst (get_user i s) = Inl (HTTPException c1 d1) \<longrightarrow> c1 = 404 \<and> d1 = ''User not found'')
   \<and> (fst (update_user i user s) = Inl (HTTPException c2 d2) \<longrightarrow> c2 = 404 \<and> d2 = ''User not found'')
   \<and> (fst (delete_user i s) = Inl (HTTPException c3 d3) \<longrightarrow> c3 = 404 \<and> d3 = ''User not found'')
   \<and> (fst (get_product i s) = Inl (HTTPException c4 d4) \<longrightarrow> c4 = 404 \<and> d4 = ''Product not found'')
   \<and> (fst (get_order i s) = Inl (HTTPException c5 d5) \<longrightarrow> c5 = 404 \<and> d5 = ''Order not found'')"
proof -
  have "fst (update_user i user s) = Inl (HTTPException c2 d2) \<Longrightarrow> c2 = 404 \<and> d2 = ''User not found''"
    using update_user_loop_http_error [of 0 "users_db s" i user "users_db s" c2 d2]
    by (simp add: update_user_def split: prod.splits)
  moreover have "fst (delete_user i s) = Inl (HTTPException c3 d3) \<Longrightarrow> c3 = 404 \<and> d3 = ''User not found''"
    using delete_user_loop_http_error [of 0 "users_db s" i "users_db s" c3 d3]
    by (simp add: delete_user_def split: prod.splits)
  ultimately show ?thesis
    using get_loop_http_error [of "''User not found''" "users_db s" i c1 d1]
      get_loop_http_error [of "''Product not found''" "products_db s" i c4 d4]
      get_loop_http_error [of "''Order not found''" "orders_db s" i c5 d5]
    by (simp add: get_user_def get_product_def get_order_def)
qed

theorem not_found_message_witness:
  "fst (get_user 5 two_users) = Inl (HTTPException 404 ''User not found'')
   \<and> fst (update_user 5 carol two_users) = Inl (HTTPException 404 ''User not found'')
   \<and> fst (delete_user 5 two_users) = Inl (HTTPException 404 ''User not found'')
   \<and> fst (get_product 5 two_users) = Inl (HTTPException 404 ''Product not found'')
   \<and> fst (get_order 5 two_users) = Inl (HTTPException 404 ''Order not found'')"
proof -
  obtain e1 e2 e3 e4 e5 where e:
    "fst (get_user 5 two_users) = Inl e1 \<and> (\<exists>c d. e1 = HTTPException c d)"
    "fst (update_user 5 carol two_users) = Inl e2 \<and> (\<exists>c d. e2 = HTTPException c d)"
    "fst (delete_user 5 two_users) = Inl e3 \<and> (\<exists>c d. e3 = HTTPException c d)"
    "fst (get_product 5 two_users) = Inl e4 \<and> (\<exists>c d. e4 = HTTPException c d)"
    "fst (get_order 5 two_users) = Inl e5 \<and> (\<exists>c d. e5 = HTTPException c d)"
    by (simp add: get_user_def update_user_def delete_user_def get_product_def
          get_order_def two_users_def)
  then obtain c1 d1 c2 d2 c3 d3 c4 d4 c5 d5 where
    "fst (get_user 5 two_users) = Inl (HTTPException c1 d1)"
    "fst (update_user 5 carol two_users) = Inl (HTTPException c2 d2)"
    "fst (delete_user 5 two_users) = Inl (HTTPException c3 d3)"
    "fst (get_product 5 two_users) = Inl (HTTPException c4 d4)"
    "fst (get_order 5 two_users) = Inl (HTTPException c5 d5)"
    by blast
  then show ?thesis
    using not_found_message [of 5 two_users c1 d1 carol c2 d2 c3 d3 c4 d4 c5 d5]
    by simp
qed

text \<open>
  C10 fails as stated: the message does not identify the missing id. Looking up id 1 and
  id 2 in the empty stores raises the same exception with the same message.
\<close>

theorem not_found_message_same_for_all_ids:
  "fst (get_user 1 init_state) = Inl (HTTPException 404 ''User not found'')
   \<and> fst (get_user 2 init_state) = Inl (HTTPException 404 ''User not found'')
   \<and> fst (get_order 1 init_state) = Inl (HTTPException 404 ''Order not found'')
   \<and> fst (get_order 2 init_state) = Inl (HTTPException 404 ''Order not found'')
   \<and> fst (get_user 1 init_state) = fst (get_user 2 init_state)
   \<and> fst (get_order 1 init_state) = fst (get_order 2 init_state)"
  by (simp add: get_user_def get_order_def init_state_def)

lemma creates_assigned_ids:
  assumes step: "\<And>m s. assigned_id (fst (create m s)) = Some (int (length (sel s)) + 1)
                      \<and> length (sel (snd (create m s))) = Suc (length (sel s))"
  shows "map assigned_id (fst (creates create ms s))
           = map (\<lambda>k. Some (int (length (sel s)) + 1 + int k)) [0..<length ms]"
proof (induction ms arbitrary: s)
  case Nil
  then show ?case by simp
next
  case (Cons m ms)
  have "map assigned_id (fst (creates create (m # ms) s))
          = assigned_id (fst (create m s))
            # map assigned_id (fst (creates create ms (snd (create m s))))"
    by (simp split: prod.splits)
  also have "\<dots> = Some (int (length (sel s)) + 1)
                  # map (\<lambda>k. Some (int (Suc (length (sel s))) + 1 + int k)) [0..<length ms]"
    using step [of m s] Cons.IH [of "snd (create m s)"] by simp
  also have "\<dots> = map (\<lambda>k. Some (int (length (sel s)) + 1 + int k)) [0..<length (m # ms)]"
    by (simp add: upt_conv_Cons map_Suc_upt [symmetric] del: upt_Suc)
  finally show ?case .
qed

lemma consecutive_ids:
  "sorted_wrt (<) (map (\<lambda>k. a + 1 + int k) [0..<n])
   \<and> distinct (map (\<lambda>k. a + 1 + int k) [0..<n])"
  by (simp add: sorted_wrt_map distinct_map inj_on_def)

lemma create_user_step:
  "assigned_id (fst (create_user m s)) = Some (int (length (users_db s)) + 1)
   \<and> length (users_db (snd (create_user m s))) = Suc (length (users_db s))"
  by (simp add: create_user_def Let_def assigned_id_def record_id_Some_iff)

lemma create_product_step:
  "assigned_id (fst (create_product m s)) = Some (int (length (products_db s)) + 1)
   \<and> length (products_db (snd (create_product m s))) = Suc (length (products_db s))"
  by (simp add: create_product_def Let_def assigned_id_def record_id_Some_iff)

lemma create_order_step:
  "assigned_id (fst (create_order m s)) = Some (int (length (orders_db s)) + 1)
   \<and> length (orders_db (snd (create_order m s))) = Suc (length (orders_db s))"
  by (simp add: create_order_def Let_def assigned_id_def record_id_Some_iff)

lemma increasing_ids:
  assumes "xs = map (\<lambda>k. Some (a + 1 + int k)) [0..<n]"
  shows "\<exists>ids. xs = map Some ids \<and> length ids = n \<and> sorted_wrt (<) ids \<and> distinct ids
               \<and> (ids \<noteq> [] \<longrightarrow> hd ids = a + 1)"
proof -
  let ?ids = "map (\<lambda>k. a + 1 + int k) [0..<n]"
  have "xs = map Some ?ids" using assms by simp
  moreover have "?ids \<noteq> [] \<longrightarrow> hd ?ids = a + 1"
    by (cases n) (simp_all add: upt_conv_Cons del: upt_Suc)
  ultimately show ?thesis
    using consecutive_ids [of a n] by (intro exI [of _ ?ids]) simp
qed

text \<open>
  C7: in an unbroken sequence of create calls on one store, from any state, every call
  returns a record, and the ids assigned, in call order, are strictly increasing and
  pairwise distinct. (They are count + 1, count + 2, ...: \<open>creates_assigned_ids\<close>.)
\<close>

theorem create_sequence_ids_increase:
  "(\<exists>ids. map assigned_id (fst (creates create_user users s)) = map Some ids
         \<and> length ids = length users \<and> sorted_wrt (<) ids \<and> distinct ids)
   \<and> (\<exists>ids. map assigned_id (fst (creates create_product products s)) = map Some ids
         \<and> length ids = length products \<and> sorted_wrt (<) ids \<and> distinct ids)
   \<and> (\<exists>ids. map assigned_id (fst (creates create_order orders s)) = map Some ids
         \<and> length ids = length orders \<and> sorted_wrt (<) ids \<and> distinct ids)"
  using increasing_ids [OF creates_assigned_ids [of create_user users_db users s, OF create_user_step]]
    increasing_ids [OF creates_assigned_ids [of create_product products_db products s, OF create_product_step]]
    increasing_ids [OF creates_assigned_ids [of create_order orders_db orders s, OF create_order_step]]
  by blast

theorem create_sequence_ids_increase_witness:
  "map assigned_id (fst (creates create_user [alice, bob, carol] two_users)) = [Some 3, Some 4, Some 5]
   \<and> (\<exists>ids. map assigned_id (fst (creates create_user [alice, bob, carol] two_users)) = map Some ids
         \<and> length ids = length [alice, bob, carol] \<and> sorted_wrt (<) ids \<and> distinct ids)"
proof -
  have "map assigned_id (fst (creates create_user [alice, bob, carol] two_users))
          = [Some 3, Some 4, Some 5]"
    by (simp add: create_user_def Let_def assigned_id_def record_id_Some_iff two_users_def)
  then show ?thesis
    using create_sequence_ids_increase [of "[alice, bob, carol]" two_users] by blast
qed

section \<open>Reachable states\<close>

text \<open>
  Every state the service reaches from the empty stores keeps an integer id in every
  record, so the hypothesis \<open>wf_state\<close> excludes no run of the service.
\<close>

lemma handle_wf: "wf_state s \<Longrightarrow> wf_state (handle req s)"
proof (cases req)
  case (UpdateUser i user)
  assume wf: "wf_state s"
  then have "wf_db (users_db s)" by (simp add: wf_state_def)
  from update_user_loop_first_index [OF this, of 0 i user "users_db s"] wf
  show ?thesis
    by (auto simp: UpdateUser update_user_def wf_state_def Let_def wf_db_list_update
          record_id_Some_iff split: option.splits)
next
  case (DeleteUser i)
  assume wf: "wf_state s"
  then have "wf_db (users_db s)" by (simp add: wf_state_def)
  from delete_user_loop_first_index [OF this, of 0 i "users_db s"] wf
  show ?thesis
    by (auto simp: DeleteUser delete_user_def wf_state_def wf_db_delete split: option.splits)
qed (auto simp: wf_state_def wf_db_append wf_db_Cons wf_db_Nil list_users_def list_products_def
       list_orders_def get_user_def get_product_def get_order_def create_user_def
       create_product_def create_order_def Let_def record_id_Some_iff)

lemma run_wf: "wf_state s \<Longrightarrow> wf_state (run reqs s)"
  unfolding run_def by (induction reqs arbitrary: s) (simp_all add: handle_wf)

lemma reachable_wf: "wf_state (run reqs init_state)"
  by (rule run_wf) (simp add: wf_state_def init_state_def wf_db_Nil)

section \<open>Where ids are reused, and where they are not\<close>

text \<open>
  Without a delete among the requests the ids of each store stay \<open>1, 2, ...\<close> and so
  distinct; delete removes the first record with the id and keeps the order of the others;
  a create followed by a get of the new id returns the created record when no stored
  record had that id.
\<close>

lemma delete_user_removes_first_match:
  assumes wf: "wf_db (users_db s)" and has: "has_id (users_db s) i"
  shows "\<exists>k < length (users_db s).
           record_id (users_db s ! k) = Some i
         \<and> (\<forall>j<k. record_id (users_db s ! j) \<noteq> Some i)
         \<and> delete_user i s
             = (Inr [''deleted'' \<mapsto> PBool True],
                s\<lparr>users_db := take k (users_db s) @ drop (Suc k) (users_db s)\<rparr>)"
proof -
  from has obtain k where k: "first_index (users_db s) i = Some k"
    using has_id_first_index by blast
  from first_index_SomeD [OF k] show ?thesis
    by (intro exI [of _ k]) (simp add: delete_user_def delete_user_loop_first_index [OF wf] k)
qed

lemma first_index_append:
  "first_index (db @ [r]) i =
     (case first_index db i of
        Some k \<Rightarrow> Some k
      | None \<Rightarrow> if record_id r = Some i then Some (length db) else None)"
  by (induction db) (auto split: option.splits)

lemma create_user_then_get_fresh_id:
  assumes wf: "wf_db (users_db s)"
    and fresh: "\<not> has_id (users_db s) (int (length (users_db s)) + 1)"
  shows "fst (get_user (int (length (users_db s)) + 1) (snd (create_user user s)))
           = fst (create_user user s)"
proof -
  let ?n = "int (length (users_db s)) + 1"
  let ?r = "(User_dict user)(''id'' \<mapsto> PInt ?n)"
  have id: "record_id ?r = Some ?n"
    by (simp add: record_id_Some_iff)
  then have wf': "wf_db (users_db s @ [?r])"
    using wf by (simp add: wf_db_append wf_db_Cons wf_db_Nil)
  from fresh have "first_index (users_db s) ?n = None"
    by (simp add: first_index_None_iff)
  then have "first_index (users_db s @ [?r]) ?n = Some (length (users_db s))"
    using id by (simp add: first_index_append)
  then have "get_loop ''User not found'' (users_db s @ [?r]) ?n = Inr ?r"
    by (simp add: get_loop_first_index [OF wf'])
  then show ?thesis
    by (simp add: get_user_def create_user_def Let_def)
qed

lemma numbered_append:
  "numbered db \<Longrightarrow> record_id r = Some (int (length db) + 1) \<Longrightarrow> numbered (db @ [r])"
  by (simp add: numbered_def)

lemma numbered_wf: "numbered db \<Longrightarrow> wf_db db"
proof -
  assume n: "numbered db"
  have "\<forall>x \<in> set (map record_id db). x \<noteq> None"
    unfolding n [unfolded numbered_def] by auto
  then show "wf_db db"
    by (auto simp: wf_db_def list_all_iff)
qed

lemma numbered_update:
  assumes "numbered db" "k < length db" "record_id (db ! k) = Some i" "record_id new = Some i"
  shows "numbered (db[k := new])"
proof -
  have "map record_id (db[k := new]) = (map record_id db)[k := record_id (db ! k)]"
    using assms by (simp add: map_update)
  also have "\<dots> = map record_id db"
    using assms(2) by (simp add: list_update_same_conv)
  finally show ?thesis
    using assms(1) by (simp add: numbered_def)
qed

lemma numbered_distinct: "numbered db \<Longrightarrow> distinct (map record_id db)"
  by (simp add: numbered_def distinct_map inj_on_def)

lemma update_user_numbered:
  assumes "numbered (users_db s)"
  shows "numbered (users_db (snd (update_user i user s)))"
proof (cases "first_index (users_db s) i")
  case None
  then show ?thesis
    using assms by (simp add: update_user_def update_user_loop_first_index [OF numbered_wf [OF assms]])
next
  case (Some k)
  from first_index_SomeD [OF Some] have "k < length (users_db s)" "record_id (users_db s ! k) = Some i"
    by simp_all
  from numbered_update [OF assms this, of "(User_dict user)(''id'' \<mapsto> PInt i)"]
  show ?thesis
    by (simp add: update_user_def update_user_loop_first_index [OF numbered_wf [OF assms]] Some
          Let_def record_id_Some_iff)
qed

lemma handle_numbered:
  assumes "\<not> is_delete req"
    and "numbered (users_db s) \<and> numbered (products_db s) \<and> numbered (orders_db s)"
  shows "numbered (users_db (handle req s)) \<and> numbered (products_db (handle req s))
         \<and> numbered (orders_db (handle req s))"
proof (cases req)
  case (UpdateUser i user)
  have "products_db (snd (update_user i user s)) = products_db s"
    "orders_db (snd (update_user i user s)) = orders_db s"
    by (simp_all add: update_user_def split: prod.splits)
  then show ?thesis
    using assms update_user_numbered [of s i user] by (simp add: UpdateUser)
next
  case (DeleteUser i)
  then show ?thesis using assms by (simp add: is_delete_def)
qed (use assms in \<open>simp_all add: list_users_def list_products_def
       list_orders_def get_user_def get_product_def get_order_def create_user_def
       create_product_def create_order_def Let_def record_id_Some_iff numbered_append\<close>)

lemma run_numbered:
  assumes "\<forall>req \<in> set reqs. \<not> is_delete req"
    and "numbered (users_db s) \<and> numbered (products_db s) \<and> numbered (orders_db s)"
  shows "numbered (users_db (run reqs s)) \<and> numbered (products_db (run reqs s))
         \<and> numbered (orders_db (run reqs s))"
  using assms unfolding run_def
proof (induction reqs arbitrary: s)
  case Nil
  then show ?case by simp
next
  case (Cons req reqs)
  from Cons.prems have "\<not> is_delete req" by simp
  from handle_numbered [OF this Cons.prems(2)] Cons.IH [of "handle req s"] Cons.prems(1)
  show ?case by simp
qed

lemma ids_distinct_without_delete:
  assumes "\<forall>req \<in> set reqs. \<not> is_delete req"
  shows "distinct (map record_id (users_db (run reqs init_state)))
       \<and> distinct (map record_id (products_db (run reqs init_state)))
       \<and> distinct (map record_id (orders_db (run reqs init_state)))"
proof -
  have "numbered (users_db init_state) \<and> numbered (products_db init_state)
        \<and> numbered (orders_db init_state)"
    by (simp add: numbered_def init_state_def)
  from run_numbered [OF assms this] show ?thesis
    by (simp add: numbered_distinct)
qed

text \<open>
  C2 fails on the code: create numbers a record by the current length of the list, so
  after a delete the next create assigns an id that a stored record already has. Creating
  Alice and Bob, deleting id 1 and creating Carol leaves two records with id 2.
\<close>

theorem ids_collide_after_delete:
  "map record_id
     (users_db (run [CreateUser alice, CreateUser bob, DeleteUser 1, CreateUser carol] init_state))
   = [Some 2, Some 2]"
  by (simp add: run_def create_user_def delete_user_def init_state_def Let_def record_id_def
        User_dict_def)

lemma after_delete_state:
  "run [CreateUser alice, CreateUser bob, DeleteUser 1] init_state
     = \<lparr>users_db = [(User_dict bob)(''id'' \<mapsto> PInt 2)], products_db = [], orders_db = []\<rparr>"
  by (simp add: run_def create_user_def delete_user_def init_state_def Let_def User_dict_def)

lemma bob_is_not_carol:
  "(User_dict bob)(''id'' \<mapsto> PInt 2) \<noteq> (User_dict carol)(''id'' \<mapsto> PInt 2)"
proof
  assume "(User_dict bob)(''id'' \<mapsto> PInt 2) = (User_dict carol)(''id'' \<mapsto> PInt 2)"
  then have "((User_dict bob)(''id'' \<mapsto> PInt 2)) ''name''
               = ((User_dict carol)(''id'' \<mapsto> PInt 2)) ''name''"
    by simp
  then show False
    by (simp add: User_dict_def bob_def carol_def)
qed

text \<open>
  C4 fails on the code, by the same reuse of ids: after Alice and Bob were created and
  id 1 deleted, creating Carol returns her record with id 2, and get(2) returns Bob's
  record, the first with that id.
\<close>

theorem create_then_get_returns_older_record:
  "fst (create_user carol (run [CreateUser alice, CreateUser bob, DeleteUser 1] init_state))
     = Inr ((User_dict carol)(''id'' \<mapsto> PInt 2))
   \<and> fst (get_user 2
        (snd (create_user carol (run [CreateUser alice, CreateUser bob, DeleteUser 1] init_state))))
     = Inr ((User_dict bob)(''id'' \<mapsto> PInt 2))
   \<and> (User_dict bob)(''id'' \<mapsto> PInt 2) \<noteq> (User_dict carol)(''id'' \<mapsto> PInt 2)"
  using bob_is_not_carol
  by (simp add: after_delete_state create_user_def get_user_def Let_def User_dict_def)

text \<open>
  C6 fails on the code, by the same reuse of ids: with two records of id 2 in the store,
  delete(2) returns its confirmation and removes the first of them, and get(2) then
  returns the second instead of raising.
\<close>

theorem delete_then_get_still_finds_id:
  "has_id (users_db (run [CreateUser alice, CreateUser bob, DeleteUser 1, CreateUser carol] init_state)) 2
   \<and> fst (delete_user 2
        (run [CreateUser alice, CreateUser bob, DeleteUser 1, CreateUser carol] init_state))
     = Inr [''deleted'' \<mapsto> PBool True]
   \<and> fst (get_user 2 (snd (delete_user 2
        (run [CreateUser alice, CreateUser bob, DeleteUser 1, CreateUser carol] init_state))))
     = Inr ((User_dict carol)(''id'' \<mapsto> PInt 2))"
  by (simp add: run_def create_user_def delete_user_def get_user_def init_state_def Let_def
        has_id_def record_id_def User_dict_def)

text \<open>
  C8 fails on the code: \<open>list_users\<close> has no parameter for a store and no branch for an
  absent one. The call of the repository's own test, \<open>list_users(None)\<close>, raises
  \<open>TypeError\<close> where the test expects the empty list. On the empty stores the call
  without arguments returns the empty list.
\<close>

theorem list_users_rejects_argument:
  "fst (call_list_users [PNone] init_state) = Inl TypeError
   \<and> fst (call_list_users [PNone] init_state) \<noteq> Inr []
   \<and> fst (list_users init_state) = Inr []"
  by (simp add: call_list_users_def list_users_def init_state_def)

end
